theory Spec2Isabelle
  imports Complex_Main
begin

section \<open>Python values and failures\<close>

text \<open>
  The strategy models of \<^verbatim>\<open>model.py\<close> are embedded as HOL functions. Every exception the
  source can raise is a value: a computation is of type \<open>py_error + 'a\<close>, with \<open>Inl\<close> for
  the exception. A call of \<^verbatim>\<open>run\<close> has three ways to end: it returns, an exception leaves
  it, or \<^verbatim>\<open>sys.exit\<close> is called.

  Prices and indicator values are Python floats in the source; they are exact reals here,
  so rounding and NaN are outside the model. An indicator value can be Python's
  \<^verbatim>\<open>None\<close>, which is \<open>None\<close> here. Timestamps are whole epoch seconds. Strings are
  ASCII. The logger call at the head of \<^verbatim>\<open>run\<close> and the diagnostic prints of its
  exception handler write text only and are not modelled.
\<close>

datatype py_error = IndexError | KeyError | TypeError | ValueError | NameError

datatype 'a outcome = Returned 'a | Raised py_error | SysExit int

text \<open>Subscription \<^verbatim>\<open>xs[i]\<close>: a negative index counts from the end of the list.\<close>

definition py_index :: "'a list \<Rightarrow> int \<Rightarrow> py_error + 'a" where
  "py_index xs i =
     (if 0 \<le> i \<and> i < int (length xs) then Inr (xs ! nat i)
      else if i < 0 \<and> - int (length xs) \<le> i then Inr (xs ! nat (int (length xs) + i))
      else Inl IndexError)"

text \<open>Ordering of two values that may be \<^verbatim>\<open>None\<close>: Python 3 raises TypeError on \<^verbatim>\<open>None\<close>.\<close>

fun py_lt :: "real option \<Rightarrow> real option \<Rightarrow> py_error + bool" where
  "py_lt (Some a) (Some b) = Inr (a < b)"
| "py_lt _ _ = Inl TypeError"

fun py_gt :: "real option \<Rightarrow> real option \<Rightarrow> py_error + bool" where
  "py_gt (Some a) (Some b) = Inr (a > b)"
| "py_gt _ _ = Inl TypeError"

text \<open>\<^verbatim>\<open>p and q\<close>: the right operand is evaluated only when the left one is true.\<close>

definition py_and :: "py_error + bool \<Rightarrow> py_error + bool \<Rightarrow> py_error + bool" where
  "py_and p q = (case p of Inl e \<Rightarrow> Inl e | Inr b \<Rightarrow> if b then q else Inr False)"

section \<open>Strings: digits, letters, decimal numerals\<close>

text \<open>\<^verbatim>\<open>str.isdigit\<close> and the character class \<^verbatim>\<open>[a-zA-Z]\<close>, on ASCII.\<close>

definition isdigit :: "char \<Rightarrow> bool" where
  "isdigit c = (48 \<le> (of_char c :: nat) \<and> (of_char c :: nat) \<le> 57)"

definition isalpha :: "char \<Rightarrow> bool" where
  "isalpha c =
     ((65 \<le> (of_char c :: nat) \<and> (of_char c :: nat) \<le> 90) \<or>
      (97 \<le> (of_char c :: nat) \<and> (of_char c :: nat) \<le> 122))"

definition digit_value :: "char \<Rightarrow> nat" where
  "digit_value c = of_char c - 48"

definition digit_char :: "nat \<Rightarrow> char" where
  "digit_char d = char_of (48 + d)"

text \<open>
  \<^verbatim>\<open>int(s)\<close> on a string of digits; the empty string is not a numeral. The source only
  applies it to the digits filtered out of a code, so the value is never negative.
\<close>

definition py_int :: "string \<Rightarrow> py_error + nat" where
  "py_int s =
     (if s = [] \<or> \<not> list_all isdigit s then Inl ValueError
      else Inr (foldl (\<lambda>n c. 10 * n + digit_value c) 0 s))"

text \<open>\<^verbatim>\<open>str(n)\<close> for a non-negative integer.\<close>

fun py_str :: "nat \<Rightarrow> string" where
  "py_str n = (if n < 10 then [digit_char n] else py_str (n div 10) @ [digit_char (n mod 10)])"

declare py_str.simps [simp del]

text \<open>
  \<^verbatim>\<open>re.findall("[a-zA-Z]+", s)\<close>: the maximal runs of letters of \<open>s\<close>, from left to right.
  \<open>cur\<close> is the run being read.
\<close>

fun findall_alpha :: "string \<Rightarrow> string \<Rightarrow> string list" where
  "findall_alpha cur [] = (if cur = [] then [] else [cur])"
| "findall_alpha cur (c # cs) =
     (if isalpha c then findall_alpha (cur @ [c]) cs
      else if cur = [] then findall_alpha [] cs
      else cur # findall_alpha [] cs)"

section \<open>The timeframe resolver\<close>

text \<open>
  \<^verbatim>\<open>EQTrendFollowing.get_required_timeframes\<close>. A branch of the explicit chain appends its
  candidate only when it is neither in \<open>timeframes\<close> nor in \<open>to_add\<close>.
\<close>

definition add_absent :: "string list \<Rightarrow> string list \<Rightarrow> string \<Rightarrow> string list" where
  "add_absent timeframes to_add c =
     (if c \<notin> set timeframes \<and> c \<notin> set to_add then to_add @ [c] else to_add)"

text \<open>The last branch: the digits of the code are read as a number, which is doubled.\<close>

definition doubled :: "string \<Rightarrow> py_error + string" where
  "doubled timeframe =
     (case py_int (filter isdigit timeframe) of
        Inl e \<Rightarrow> Inl e
      | Inr num \<Rightarrow>
          (case py_index (findall_alpha [] timeframe) 0 of
             Inl e \<Rightarrow> Inl e
           | Inr code0 \<Rightarrow> Inr (py_str (num * 2) @ code0)))"

definition required_step :: "string list \<Rightarrow> string list \<Rightarrow> string \<Rightarrow> py_error + string list" where
  "required_step timeframes to_add timeframe =
     (if timeframe = ''1Min'' then Inr (add_absent timeframes to_add ''3Min'')
      else if timeframe = ''3Min'' then Inr (add_absent timeframes to_add ''5Min'')
      else if timeframe = ''5Min'' then Inr (add_absent timeframes to_add ''15Min'')
      else if timeframe = ''30Min'' then Inr (add_absent timeframes to_add ''1H'')
      else if timeframe = ''12H'' \<or> timeframe = ''16H''
        then Inr (add_absent timeframes to_add ''1D'')
      else if timeframe = ''3D'' then Inr (add_absent timeframes to_add ''7D'')
      else (case doubled timeframe of
              Inl e \<Rightarrow> Inl e
            | Inr c \<Rightarrow> Inr (to_add @ [c])))"

text \<open>The codes the chain above tests for, in its order.\<close>

definition explicit_codes :: "string list" where
  "explicit_codes = [''1Min'', ''3Min'', ''5Min'', ''30Min'', ''12H'', ''16H'', ''3D'']"

text \<open>The loop over \<open>timeframes\<close>; the list itself is not changed while it runs.\<close>

fun required_loop :: "string list \<Rightarrow> string list \<Rightarrow> string list \<Rightarrow> py_error + string list" where
  "required_loop timeframes to_add [] = Inr to_add"
| "required_loop timeframes to_add (t # ts) =
     (case required_step timeframes to_add t of
        Inl e \<Rightarrow> Inl e
      | Inr to_add' \<Rightarrow> required_loop timeframes to_add' ts)"

text \<open>
  The result is the pair of the list \<open>timeframes\<close> as the call leaves it and the value
  returned (\<open>None\<close> for Python's \<^verbatim>\<open>None\<close>).
\<close>

definition get_required_timeframes_EQ ::
  "string list \<Rightarrow> bool \<Rightarrow> py_error + (string list \<times> string list option)" where
  "get_required_timeframes_EQ timeframes result =
     (case required_loop timeframes [] timeframes of
        Inl e \<Rightarrow> Inl e
      | Inr to_add \<Rightarrow>
          if \<not> result then Inr (timeframes @ to_add, None)
          else Inr (timeframes, Some to_add))"

text \<open>\<^verbatim>\<open>EMACrossTestingOnly.get_required_timeframes\<close>.\<close>

definition get_required_timeframes_EMA ::
  "string list \<Rightarrow> bool \<Rightarrow> py_error + (string list \<times> string list option)" where
  "get_required_timeframes_EMA timeframes result =
     (if result then Inr (timeframes, Some timeframes) else Inr (timeframes, None))"

section \<open>The crossover model\<close>

text \<open>
  A row of \<open>features\<close>: index timestamp, open, EMA10 (fast), EMA20 (slow). The bar series
  of a timeframe is the list of its rows; \<open>op_data\<close> maps a timeframe to its series.
\<close>

type_synonym bar = "int \<times> real \<times> real option \<times> real option"

definition bar_time :: "bar \<Rightarrow> int" where "bar_time b = fst b"
definition bar_open :: "bar \<Rightarrow> real" where "bar_open b = fst (snd b)"
definition bar_fast :: "bar \<Rightarrow> real option" where "bar_fast b = fst (snd (snd b))"
definition bar_slow :: "bar \<Rightarrow> real option" where "bar_slow b = snd (snd (snd b))"

record candidates =
  price :: "real list"
  time :: "int list"

definition no_candidates :: candidates where
  "no_candidates = \<lparr>price = [], time = []\<rparr>"

definition record_bar :: "candidates \<Rightarrow> bar \<Rightarrow> candidates" where
  "record_bar cs b = \<lparr>price = price cs @ [bar_open b], time = time cs @ [bar_time b]\<rparr>"

text \<open>
  Modelled from the spec: the signal event. Its class is imported from \<^verbatim>\<open>event_types\<close>
  and is not part of \<^verbatim>\<open>model.py\<close>; \<^verbatim>\<open>run\<close> only calls its constructor, with fourteen
  positional arguments. The record has one field for each of them, in the order of the
  call and of the spec's data model: symbol, entry timestamp, direction, timeframe, model
  name, exchange, entry price, order type, targets (price, percent to close), stop price,
  trailing metadata, a flag, an identifier, and the bar series.
\<close>

record 'x signal_event =
  ev_symbol :: string
  ev_entry_ts :: int
  ev_direction :: string
  ev_timeframe :: string
  ev_strategy :: string
  ev_venue :: 'x
  ev_entry_price :: real
  ev_entry_type :: string
  ev_targets :: "(real \<times> int) list"
  ev_stop_price :: "real option"
  ev_trailing :: "string option"
  ev_flag :: bool
  ev_identifier :: "string option"
  ev_dataset :: "bar list"

definition name_EMA :: string where
  "name_EMA = ''EMA Cross - Testing only''"

definition operating_timeframes_EMA :: "string list" where
  "operating_timeframes_EMA = [''1Min'']"

text \<open>
  One pass of the scanning loop at index \<open>i\<close>. The three rows are read before anything
  is tested, with \<open>i - 1\<close> and \<open>i - 2\<close> as Python indices.
\<close>

definition scan_step ::
  "bar list \<Rightarrow> candidates \<times> candidates \<Rightarrow> nat \<Rightarrow> py_error + (candidates \<times> candidates)" where
  "scan_step features ls i =
     (case py_index features (int i) of
        Inl e \<Rightarrow> Inl e
      | Inr b \<Rightarrow>
     (case py_index features (int i - 1) of
        Inl e \<Rightarrow> Inl e
      | Inr b1 \<Rightarrow>
     (case py_index features (int i - 2) of
        Inl e \<Rightarrow> Inl e
      | Inr b2 \<Rightarrow>
          if bar_fast b \<noteq> None \<and> bar_slow b \<noteq> None then
            (case py_gt (bar_slow b) (bar_fast b) of
               Inl e \<Rightarrow> Inl e
             | Inr short_side \<Rightarrow>
                 if short_side then
                   (case py_and (py_lt (bar_slow b1) (bar_fast b1))
                                (py_lt (bar_slow b2) (bar_fast b2)) of
                      Inl e \<Rightarrow> Inl e
                    | Inr crossed \<Rightarrow>
                        if crossed then Inr (fst ls, record_bar (snd ls) b) else Inr ls)
                 else
                   (case py_lt (bar_slow b) (bar_fast b) of
                      Inl e \<Rightarrow> Inl e
                    | Inr long_side \<Rightarrow>
                        if long_side then
                          (case py_and (py_gt (bar_slow b1) (bar_fast b1))
                                       (py_gt (bar_slow b2) (bar_fast b2)) of
                             Inl e \<Rightarrow> Inl e
                           | Inr crossed \<Rightarrow>
                               if crossed then Inr (record_bar (fst ls) b, snd ls) else Inr ls)
                        else Inr ls))
          else Inr ls)))"

fun scan_loop ::
  "bar list \<Rightarrow> candidates \<times> candidates \<Rightarrow> nat list \<Rightarrow> py_error + (candidates \<times> candidates)" where
  "scan_loop features ls [] = Inr ls"
| "scan_loop features ls (i # is) =
     (case scan_step features ls i of
        Inl e \<Rightarrow> Inl e
      | Inr ls' \<Rightarrow> scan_loop features ls' is)"

text \<open>The whole scan: the pair (longs, shorts) after \<^verbatim>\<open>for i in range(len(...))\<close>.\<close>

definition scan :: "bar list \<Rightarrow> py_error + (candidates \<times> candidates)" where
  "scan features = scan_loop features (no_candidates, no_candidates) [0..<length features]"

definition make_signal ::
  "string \<Rightarrow> int \<Rightarrow> string \<Rightarrow> string \<Rightarrow> 'x \<Rightarrow> real \<Rightarrow> real \<Rightarrow> bar list \<Rightarrow> 'x signal_event" where
  "make_signal symbol ts dir timeframe exchange entry final_tp_price data =
     \<lparr>ev_symbol = symbol, ev_entry_ts = ts, ev_direction = dir, ev_timeframe = timeframe,
      ev_strategy = name_EMA, ev_venue = exchange, ev_entry_price = entry,
      ev_entry_type = ''Market'', ev_targets = [(final_tp_price, 100)],
      ev_stop_price = None, ev_trailing = None, ev_flag = False, ev_identifier = None,
      ev_dataset = data\<rparr>"

text \<open>The body of the \<^verbatim>\<open>try\<close> block.\<close>

definition select_trigger ::
  "bar list \<Rightarrow> candidates \<Rightarrow> candidates \<Rightarrow> string \<Rightarrow> string \<Rightarrow> 'x
     \<Rightarrow> py_error + 'x signal_event option" where
  "select_trigger features longs shorts symbol timeframe exchange =
     (case py_index features (- 1) of
        Inl e \<Rightarrow> Inl e
      | Inr final \<Rightarrow>
     (case py_index (time longs) (- 1) of
        Inl e \<Rightarrow> Inl e
      | Inr long_ts \<Rightarrow>
          if bar_time final = long_ts then
            (case py_index (price longs) (- 1) of
               Inl e \<Rightarrow> Inl e
             | Inr entry \<Rightarrow>
                 Inr (Some (make_signal symbol long_ts ''LONG'' timeframe exchange entry
                              (entry + entry * 0.005) features)))
          else
            (case py_index (time shorts) (- 1) of
               Inl e \<Rightarrow> Inl e
             | Inr short_ts \<Rightarrow>
                 if bar_time final = short_ts then
                   (case py_index (price shorts) (- 1) of
                      Inl e \<Rightarrow> Inl e
                    | Inr entry \<Rightarrow>
                        Inr (Some (make_signal symbol short_ts ''SHORT'' timeframe exchange entry
                                     (entry - entry * 0.005) features)))
                 else Inr None)))"

text \<open>
  The handler of \<^verbatim>\<open>except IndexError\<close>: it reads \<^verbatim>\<open>features[-1]\<close> for its prints and
  then calls \<^verbatim>\<open>sys.exit(0)\<close>.
\<close>

definition on_index_error :: "bar list \<Rightarrow> 'a outcome" where
  "on_index_error features =
     (case py_index features (- 1) of Inl e \<Rightarrow> Raised e | Inr final \<Rightarrow> SysExit 0)"

text \<open>\<^verbatim>\<open>EMACrossTestingOnly.run\<close>.\<close>

definition run_EMA ::
  "(string \<rightharpoonup> bar list) \<Rightarrow> bar list list \<Rightarrow> string \<Rightarrow> string \<Rightarrow> 'x
     \<Rightarrow> 'x signal_event option outcome" where
  "run_EMA op_data req_data timeframe symbol exchange =
     (if timeframe \<in> set operating_timeframes_EMA then
        (case op_data timeframe of
           None \<Rightarrow> Raised KeyError
         | Some features \<Rightarrow>
             (case scan features of
                Inl e \<Rightarrow> Raised e
              | Inr (longs, shorts) \<Rightarrow>
                  if length (time longs) > 0 \<or> length (time shorts) > 0 then
                    (case select_trigger features longs shorts symbol timeframe exchange of
                       Inr r \<Rightarrow> Returned r
                     | Inl e \<Rightarrow> if e = IndexError then on_index_error features else Raised e)
                  else Returned None))
      else Returned None)"

section \<open>The trend-following model\<close>

text \<open>
  \<^verbatim>\<open>EQTrendFollowing.run\<close>: \<open>signal\<close> is set to \<^verbatim>\<open>None\<close> and tested at once. The branch
  not taken names variables the function never binds.
\<close>

definition run_EQ ::
  "(string \<rightharpoonup> bar list) \<Rightarrow> bar list list \<Rightarrow> string \<Rightarrow> string \<Rightarrow> 'x
     \<Rightarrow> 'x signal_event option outcome" where
  "run_EQ op_data req_data timeframe symbol exchange =
     (let signal = (None :: unit option)
      in case signal of Some s \<Rightarrow> Raised NameError | None \<Rightarrow> Returned None)"

section \<open>Facts about digits and numerals\<close>

lemma isdigit_digit_char: "d < 10 \<Longrightarrow> isdigit (digit_char d)"
  by (simp add: isdigit_def digit_char_def)

lemma digit_value_digit_char: "d < 10 \<Longrightarrow> digit_value (digit_char d) = d"
  by (simp add: digit_value_def digit_char_def)

lemma isdigit_not_isalpha: "isdigit c \<Longrightarrow> \<not> isalpha c"
  by (auto simp: isdigit_def isalpha_def)

lemma py_str_digits: "list_all isdigit (py_str n)"
proof (induction n rule: py_str.induct)
  case (1 n)
  show ?case
  proof (cases "n < 10")
    case True
    then show ?thesis by (simp add: py_str.simps [of n] isdigit_digit_char)
  next
    case False
    with 1 show ?thesis by (simp add: py_str.simps [of n] isdigit_digit_char)
  qed
qed

lemma py_str_nonempty: "py_str n \<noteq> []"
  by (simp add: py_str.simps [of n])

lemma py_str_value: "foldl (\<lambda>n c. 10 * n + digit_value c) 0 (py_str n) = n"
proof (induction n rule: py_str.induct)
  case (1 n)
  show ?case
  proof (cases "n < 10")
    case True
    then show ?thesis by (simp add: py_str.simps [of n] digit_value_digit_char)
  next
    case False
    with 1 show ?thesis by (simp add: py_str.simps [of n] digit_value_digit_char)
  qed
qed

text \<open>Reading back what \<open>py_str\<close> wrote gives the number.\<close>

lemma py_int_py_str: "py_int (py_str n) = Inr n"
  by (simp add: py_int_def py_str_digits py_str_nonempty py_str_value)

lemma py_int_Inr: "py_int ds = Inr n \<Longrightarrow> ds \<noteq> [] \<and> list_all isdigit ds"
  by (auto simp: py_int_def split: if_splits)

lemma findall_alpha_letters:
  "list_all isalpha ls \<Longrightarrow> findall_alpha cur ls = (if cur @ ls = [] then [] else [cur @ ls])"
  by (induction ls arbitrary: cur) auto

lemma findall_alpha_digits_then:
  "list_all isdigit ds \<Longrightarrow> findall_alpha [] (ds @ rest) = findall_alpha [] rest"
  by (induction ds) (auto simp: isdigit_not_isalpha)

lemma filter_isdigit_code:
  "list_all isdigit ds \<Longrightarrow> list_all isalpha ls \<Longrightarrow> filter isdigit (ds @ ls) = ds"
  by (induction ls) (auto simp: list_all_iff isdigit_not_isalpha)

section \<open>Facts about the resolver\<close>

lemma doubled_code:
  assumes "py_int ds = Inr n" and "ls \<noteq> []" and "list_all isalpha ls"
  shows "doubled (ds @ ls) = Inr (py_str (n * 2) @ ls)"
proof -
  from assms(1) have ds: "list_all isdigit ds" by (simp add: py_int_Inr)
  have f: "filter isdigit (ds @ ls) = ds" using ds assms(3) by (rule filter_isdigit_code)
  have g: "findall_alpha [] (ds @ ls) = [ls]"
    using ds assms(2,3) by (simp add: findall_alpha_digits_then findall_alpha_letters)
  show ?thesis unfolding doubled_def f g by (simp add: assms(1) py_index_def)
qed

lemma doubled_no_digit: "filter isdigit tf = [] \<Longrightarrow> doubled tf = Inl ValueError"
  by (simp add: doubled_def py_int_def)

lemma required_step_no_digit:
  assumes "filter isdigit tf = []"
  shows "required_step tfs to_add tf = Inl ValueError"
proof -
  have "tf \<notin> {''1Min'', ''3Min'', ''5Min'', ''30Min'', ''12H'', ''16H'', ''3D''}"
    using assms by (auto simp: isdigit_def)
  then show ?thesis
    by (simp add: required_step_def doubled_no_digit [OF assms])
qed

lemma required_loop_fails:
  "tf \<in> set xs \<Longrightarrow> filter isdigit tf = [] \<Longrightarrow> \<exists>e. required_loop tfs to_add xs = Inl e"
proof (induction xs arbitrary: to_add)
  case Nil
  then show ?case by simp
next
  case (Cons x xs)
  show ?case
  proof (cases "required_step tfs to_add x")
    case (Inl e)
    then show ?thesis by simp
  next
    case (Inr ta)
    with Cons.prems have "x \<noteq> tf" by (auto simp: required_step_no_digit)
    with Cons.prems have "tf \<in> set xs" by simp
    from Cons.IH [OF this Cons.prems(2)] Inr show ?thesis by simp
  qed
qed

lemma required_step_fallback:
  "tf \<notin> set explicit_codes \<Longrightarrow>
     required_step tfs to_add tf =
       (case doubled tf of Inl e \<Rightarrow> Inl e | Inr c \<Rightarrow> Inr (to_add @ [c]))"
  by (simp add: required_step_def explicit_codes_def)

lemma required_step_explicit:
  "tf \<in> set explicit_codes \<Longrightarrow> \<exists>c. required_step tfs to_add tf = Inr (add_absent tfs to_add c)"
  unfolding explicit_codes_def required_step_def
  by (simp only: set_simps insert_iff empty_iff) (elim disjE; simp; blast)

lemma add_absent_keeps:
  assumes "distinct to_add" and "set to_add \<inter> set tfs = {}"
  shows "distinct (add_absent tfs to_add c) \<and> set (add_absent tfs to_add c) \<inter> set tfs = {}"
  using assms by (auto simp: add_absent_def)

text \<open>
  While the loop only meets codes of the explicit chain, the list it builds stays free of
  duplicates and apart from \<open>timeframes\<close>.
\<close>

lemma required_loop_explicit:
  assumes "set xs \<subseteq> set explicit_codes" and "distinct to_add" and "set to_add \<inter> set tfs = {}"
  shows "\<exists>r. required_loop tfs to_add xs = Inr r \<and> distinct r \<and> set r \<inter> set tfs = {}"
  using assms
proof (induction xs arbitrary: to_add)
  case Nil
  then show ?case by simp
next
  case (Cons x xs)
  from Cons.prems(1) have "x \<in> set explicit_codes" by simp
  then obtain c where step: "required_step tfs to_add x = Inr (add_absent tfs to_add c)"
    using required_step_explicit by blast
  from Cons.prems(1) have rest: "set xs \<subseteq> set explicit_codes" by simp
  from add_absent_keeps [OF Cons.prems(2,3), of c]
  have "distinct (add_absent tfs to_add c)" and "set (add_absent tfs to_add c) \<inter> set tfs = {}"
    by simp_all
  from Cons.IH [OF rest this] step show ?case by simp
qed

text \<open>The list the loop builds only grows.\<close>

lemma add_absent_mono: "set to_add \<subseteq> set (add_absent tfs to_add c)"
  by (auto simp: add_absent_def)

lemma required_step_mono:
  assumes "required_step tfs to_add tf = Inr to_add'"
  shows "set to_add \<subseteq> set to_add'"
proof (cases "tf \<in> set explicit_codes")
  case True
  then obtain c where "required_step tfs to_add tf = Inr (add_absent tfs to_add c)"
    using required_step_explicit by blast
  with assms have "to_add' = add_absent tfs to_add c" by simp
  then show ?thesis by (simp add: add_absent_mono)
next
  case False
  from assms show ?thesis
    unfolding required_step_fallback [OF False] by (auto split: sum.splits)
qed

lemma required_loop_mono:
  "required_loop tfs to_add xs = Inr r \<Longrightarrow> set to_add \<subseteq> set r"
proof (induction xs arbitrary: to_add)
  case Nil
  then show ?case by simp
next
  case (Cons x xs)
  from Cons.prems obtain mid where step: "required_step tfs to_add x = Inr mid"
    and rest: "required_loop tfs mid xs = Inr r"
    by (auto split: sum.splits)
  from required_step_mono [OF step] Cons.IH [OF rest] show ?case by blast
qed

text \<open>What the pass for a code of the list leaves in \<open>to_add\<close> is in the final list.\<close>

lemma required_loop_member:
  assumes "required_loop tfs to_add xs = Inr r" and "x \<in> set xs"
      and "\<And>acc acc'. required_step tfs acc x = Inr acc' \<Longrightarrow> d \<in> set acc'"
  shows "d \<in> set r"
  using assms(1,2)
proof (induction xs arbitrary: to_add)
  case Nil
  then show ?case by simp
next
  case (Cons y ys)
  from Cons.prems(1) obtain mid where step: "required_step tfs to_add y = Inr mid"
    and rest: "required_loop tfs mid ys = Inr r"
    by (auto split: sum.splits)
  show ?case
  proof (cases "x = y")
    case True
    with step assms(3) have "d \<in> set mid" by blast
    with required_loop_mono [OF rest] show ?thesis by blast
  next
    case False
    with Cons.prems(2) have "x \<in> set ys" by simp
    from Cons.IH [OF rest this] show ?thesis .
  qed
qed

text \<open>The explicit chain, branch by branch, in any pass of the loop.\<close>

lemma required_step_table:
  assumes "(c, d) \<in> {(''1Min'', ''3Min''), (''3Min'', ''5Min''), (''5Min'', ''15Min''),
                      (''30Min'', ''1H''), (''12H'', ''1D''), (''16H'', ''1D''), (''3D'', ''7D'')}"
  shows "required_step tfs to_add c =
           Inr (if d \<notin> set tfs \<and> d \<notin> set to_add then to_add @ [d] else to_add)"
  using assms
  by (simp only: insert_iff empty_iff prod.inject)
     (elim disjE conjE; simp add: required_step_def add_absent_def)

text \<open>
  A code that is a non-empty run of digits followed by a non-empty run of letters passes
  through the loop without an exception; the codes of the explicit chain are of that form.
\<close>

lemma py_int_digits: "ds \<noteq> [] \<Longrightarrow> list_all isdigit ds \<Longrightarrow> \<exists>n. py_int ds = Inr n"
  by (simp add: py_int_def)

lemma doubled_returns:
  assumes "takeWhile isdigit t \<noteq> []" and "dropWhile isdigit t \<noteq> []"
      and "list_all isalpha (dropWhile isdigit t)"
  shows "\<exists>c. doubled t = Inr c"
proof -
  have "list_all isdigit (takeWhile isdigit t)"
    by (simp add: list_all_iff) (meson set_takeWhileD)
  with assms(1) obtain n where n: "py_int (takeWhile isdigit t) = Inr n"
    using py_int_digits by blast
  from doubled_code [OF n assms(2,3)] show ?thesis by simp
qed

lemma explicit_codes_formed:
  assumes "t \<in> set explicit_codes"
  shows "takeWhile isdigit t \<noteq> [] \<and> dropWhile isdigit t \<noteq> [] \<and>
         list_all isalpha (dropWhile isdigit t)"
  using assms unfolding explicit_codes_def
  by (simp only: set_simps insert_iff empty_iff) (elim disjE; simp add: isdigit_def isalpha_def)

lemma required_step_returns:
  assumes "takeWhile isdigit t \<noteq> [] \<and> dropWhile isdigit t \<noteq> [] \<and>
           list_all isalpha (dropWhile isdigit t)"
  shows "\<exists>r. required_step tfs to_add t = Inr r"
proof (cases "t \<in> set explicit_codes")
  case True
  then show ?thesis using required_step_explicit by blast
next
  case False
  from assms obtain c where "doubled t = Inr c" using doubled_returns by blast
  then show ?thesis by (simp add: required_step_fallback [OF False])
qed

lemma required_loop_returns:
  assumes "\<forall>t \<in> set xs. takeWhile isdigit t \<noteq> [] \<and> dropWhile isdigit t \<noteq> [] \<and>
                        list_all isalpha (dropWhile isdigit t)"
  shows "\<exists>r. required_loop tfs to_add xs = Inr r"
  using assms
proof (induction xs arbitrary: to_add)
  case Nil
  then show ?case by simp
next
  case (Cons x xs)
  from Cons.prems have "takeWhile isdigit x \<noteq> [] \<and> dropWhile isdigit x \<noteq> [] \<and>
                        list_all isalpha (dropWhile isdigit x)" by simp
  from required_step_returns [OF this] obtain mid
    where step: "required_step tfs to_add x = Inr mid" by blast
  from Cons.prems have "\<forall>t \<in> set xs. takeWhile isdigit t \<noteq> [] \<and> dropWhile isdigit t \<noteq> [] \<and>
                        list_all isalpha (dropWhile isdigit t)" by simp
  from Cons.IH [OF this, of mid] step show ?case by simp
qed

section \<open>Facts about the scan\<close>

lemma scan_loop_append:
  "scan_loop features ls (xs @ ys) =
     (case scan_loop features ls xs of Inl e \<Rightarrow> Inl e | Inr ls' \<Rightarrow> scan_loop features ls' ys)"
  by (induction xs arbitrary: ls) (auto split: sum.splits)

lemma py_index_last: "py_index (xs @ [x]) (- 1) = Inr x"
  by (simp add: py_index_def nth_append)

lemma py_index_nat: "i < length xs \<Longrightarrow> py_index xs (int i) = Inr (xs ! i)"
  by (simp add: py_index_def)

lemma py_index_final_three:
  "py_index (pre @ [b2, b1, b]) (int (length pre + 2)) = Inr b"
  "py_index (pre @ [b2, b1, b]) (int (length pre + 2) - 1) = Inr b1"
  "py_index (pre @ [b2, b1, b]) (int (length pre + 2) - 2) = Inr b2"
proof -
  show "py_index (pre @ [b2, b1, b]) (int (length pre + 2)) = Inr b"
    by (subst py_index_nat) (simp_all add: nth_append)
  have e1: "int (length pre + 2) - 1 = int (length pre + 1)" by simp
  have "py_index (pre @ [b2, b1, b]) (int (length pre + 1)) =
          Inr ((pre @ [b2, b1, b]) ! (length pre + 1))"
    by (rule py_index_nat) simp
  then show "py_index (pre @ [b2, b1, b]) (int (length pre + 2) - 1) = Inr b1"
    unfolding e1 by (simp add: nth_append)
  have e2: "int (length pre + 2) - 2 = int (length pre)" by simp
  have "py_index (pre @ [b2, b1, b]) (int (length pre)) =
          Inr ((pre @ [b2, b1, b]) ! (length pre))"
    by (rule py_index_nat) simp
  then show "py_index (pre @ [b2, b1, b]) (int (length pre + 2) - 2) = Inr b2"
    unfolding e2 by (simp add: nth_append)
qed

text \<open>At the final index a long cross over the last three bars is recorded.\<close>

lemma scan_step_long_cross:
  assumes "bar_fast b = Some f" "bar_slow b = Some s" "s < f"
      and "bar_fast b1 = Some f1" "bar_slow b1 = Some s1" "s1 > f1"
      and "bar_fast b2 = Some f2" "bar_slow b2 = Some s2" "s2 > f2"
  shows "scan_step (pre @ [b2, b1, b]) ls (length pre + 2) = Inr (record_bar (fst ls) b, snd ls)"
  unfolding scan_step_def py_index_final_three using assms by (simp add: py_and_def)

lemma scan_final_step:
  assumes "scan (pre @ [b2, b1, b]) = Inr r"
  shows "\<exists>ls. scan_step (pre @ [b2, b1, b]) ls (length pre + 2) = Inr r"
proof -
  have "[0..<length (pre @ [b2, b1, b])] = [0..<length pre + 2] @ [length pre + 2]"
    by simp
  with assms show ?thesis
    by (auto simp: scan_def scan_loop_append simp del: upt_Suc split: sum.splits)
qed

text \<open>
  When every bar of a series of at least two bars has both indicators defined, no pass of
  the scan raises: the three rows it reads exist and every comparison is between numbers.
\<close>

lemma py_index_in_range:
  assumes "- int (length xs) \<le> i" and "i < int (length xs)"
  shows "\<exists>x \<in> set xs. py_index xs i = Inr x"
proof (cases "0 \<le> i")
  case True
  with assms(2) have "nat i < length xs" by simp
  then have "xs ! nat i \<in> set xs" by (rule nth_mem)
  with True assms(2) show ?thesis by (simp add: py_index_def)
next
  case False
  with assms(1) have "nat (int (length xs) + i) < length xs" by simp
  then have "xs ! nat (int (length xs) + i) \<in> set xs" by (rule nth_mem)
  with False assms(1) show ?thesis by (simp add: py_index_def)
qed

lemma scan_step_defined:
  assumes defined: "\<forall>x \<in> set features. bar_fast x \<noteq> None \<and> bar_slow x \<noteq> None"
      and i: "i < length features" and two: "2 \<le> length features"
  shows "\<exists>ls'. scan_step features ls i = Inr ls'"
proof -
  from i have "- int (length features) \<le> int i" "int i < int (length features)" by simp_all
  from py_index_in_range [OF this] obtain b
    where b: "b \<in> set features" "py_index features (int i) = Inr b" by blast
  from i have "- int (length features) \<le> int i - 1" "int i - 1 < int (length features)"
    by simp_all
  from py_index_in_range [OF this] obtain b1
    where b1: "b1 \<in> set features" "py_index features (int i - 1) = Inr b1" by blast
  from i two have "- int (length features) \<le> int i - 2" "int i - 2 < int (length features)"
    by simp_all
  from py_index_in_range [OF this] obtain b2
    where b2: "b2 \<in> set features" "py_index features (int i - 2) = Inr b2" by blast
  from defined b(1) obtain f s where v: "bar_fast b = Some f" "bar_slow b = Some s" by auto
  from defined b1(1) obtain f1 s1 where v1: "bar_fast b1 = Some f1" "bar_slow b1 = Some s1"
    by auto
  from defined b2(1) obtain f2 s2 where v2: "bar_fast b2 = Some f2" "bar_slow b2 = Some s2"
    by auto
  show ?thesis
    unfolding scan_step_def b(2) b1(2) b2(2) by (simp add: v v1 v2 py_and_def)
qed

lemma scan_loop_defined:
  assumes defined: "\<forall>x \<in> set features. bar_fast x \<noteq> None \<and> bar_slow x \<noteq> None"
      and two: "2 \<le> length features"
      and "\<forall>i \<in> set is. i < length features"
  shows "\<exists>r. scan_loop features ls is = Inr r"
  using assms(3)
proof (induction "is" arbitrary: ls)
  case Nil
  then show ?case by simp
next
  case (Cons i "is")
  from Cons.prems have "i < length features" by simp
  from scan_step_defined [OF defined this two] obtain mid
    where step: "scan_step features ls i = Inr mid" by blast
  from Cons.prems have "\<forall>i \<in> set is. i < length features" by simp
  from Cons.IH [OF this, of mid] step show ?case by simp
qed

lemma scan_defined:
  assumes "\<forall>x \<in> set features. bar_fast x \<noteq> None \<and> bar_slow x \<noteq> None"
      and "2 \<le> length features"
  shows "\<exists>longs shorts. scan features = Inr (longs, shorts)"
proof -
  have "\<forall>i \<in> set [0..<length features]. i < length features" by simp
  from scan_loop_defined [OF assms this] obtain r
    where "scan features = Inr r" unfolding scan_def by blast
  then show ?thesis by (cases r) auto
qed

section \<open>Facts about run\<close>

lemma py_index_error: "py_index xs i = Inl e \<Longrightarrow> e = IndexError"
  by (simp add: py_index_def split: if_splits)

lemma py_index_minus_one: "xs \<noteq> [] \<Longrightarrow> py_index xs (- 1) = Inr (last xs)"
  by (cases xs rule: rev_cases) (simp_all add: py_index_last)

lemma py_index_empty: "py_index [] i = Inl IndexError"
  by (simp add: py_index_def)

lemma select_trigger_error:
  "select_trigger features longs shorts symbol timeframe exchange = Inl e \<Longrightarrow> e = IndexError"
  by (auto simp: select_trigger_def dest: py_index_error split: sum.splits if_splits)

lemma scan_empty: "scan [] = Inr (no_candidates, no_candidates)"
  by (simp add: scan_def)

text \<open>Once the scan has recorded a candidate the handler finds a final bar and exits.\<close>

lemma on_index_error_exits: "features \<noteq> [] \<Longrightarrow> on_index_error features = SysExit 0"
  by (simp add: on_index_error_def py_index_minus_one)

lemma run_EMA_after_scan:
  assumes tf: "timeframe \<in> set operating_timeframes_EMA"
      and data: "op_data timeframe = Some features"
      and scanned: "scan features = Inr (longs, shorts)"
  shows "run_EMA op_data req_data timeframe symbol exchange =
           (if time longs = [] \<and> time shorts = [] then Returned None
            else case select_trigger features longs shorts symbol timeframe exchange of
                   Inl e \<Rightarrow> SysExit 0
                 | Inr r \<Rightarrow> Returned r)"
proof (cases "time longs = [] \<and> time shorts = []")
  case True
  with tf show ?thesis by (simp add: run_EMA_def data scanned)
next
  case False
  have "features \<noteq> []"
  proof
    assume "features = []"
    with scanned have "longs = no_candidates" and "shorts = no_candidates"
      by (simp_all add: scan_empty)
    with False show False by (simp add: no_candidates_def)
  qed
  then have exits: "on_index_error features = (SysExit 0 :: 'a signal_event option outcome)"
    by (rule on_index_error_exits)
  from False have some: "0 < length (time longs) \<or> 0 < length (time shorts)" by auto
  show ?thesis
  proof (cases "select_trigger features longs shorts symbol timeframe exchange")
    case (Inl e)
    then have "e = IndexError" by (rule select_trigger_error)
    with Inl tf exits some have
      "run_EMA op_data req_data timeframe symbol exchange = SysExit 0"
      by (simp add: run_EMA_def data scanned)
    with Inl False show ?thesis by auto
  next
    case (Inr r)
    with tf some have "run_EMA op_data req_data timeframe symbol exchange = Returned r"
      by (simp add: run_EMA_def data scanned)
    with Inr False show ?thesis by auto
  qed
qed

text \<open>Every candidate has a price and a time.\<close>

lemma scan_step_lengths:
  assumes "scan_step features ls i = Inr ls'"
      and "length (price (fst ls)) = length (time (fst ls))"
      and "length (price (snd ls)) = length (time (snd ls))"
  shows "length (price (fst ls')) = length (time (fst ls')) \<and>
         length (price (snd ls')) = length (time (snd ls'))"
  using assms
  by (auto simp: scan_step_def record_bar_def split: sum.splits if_splits)

lemma scan_loop_lengths:
  assumes "scan_loop features ls is = Inr ls'"
      and "length (price (fst ls)) = length (time (fst ls))"
      and "length (price (snd ls)) = length (time (snd ls))"
  shows "length (price (fst ls')) = length (time (fst ls')) \<and>
         length (price (snd ls')) = length (time (snd ls'))"
  using assms
proof (induction "is" arbitrary: ls)
  case Nil
  then show ?case by simp
next
  case (Cons i "is")
  from Cons.prems(1) obtain mid where step: "scan_step features ls i = Inr mid"
    and rest: "scan_loop features mid is = Inr ls'"
    by (auto split: sum.splits)
  from scan_step_lengths [OF step Cons.prems(2,3)] Cons.IH [OF rest] show ?case by simp
qed

lemma scan_lengths:
  assumes "scan features = Inr (longs, shorts)"
  shows "length (price longs) = length (time longs) \<and> length (price shorts) = length (time shorts)"
  using scan_loop_lengths [of features "(no_candidates, no_candidates)" "[0..<length features]" "(longs, shorts)"]
    assms
  by (simp add: scan_def no_candidates_def)

text \<open>No long candidate, some short candidate: the call ends the process.\<close>

lemma run_EMA_no_longs_exits:
  assumes tf: "timeframe \<in> set operating_timeframes_EMA"
      and data: "op_data timeframe = Some features"
      and scanned: "scan features = Inr (longs, shorts)"
      and "time longs = []" and "time shorts \<noteq> []"
  shows "run_EMA op_data req_data timeframe symbol exchange = SysExit 0"
proof -
  have "features \<noteq> []"
    using scanned assms(5) by (auto simp: scan_empty no_candidates_def)
  then have "select_trigger features longs shorts symbol timeframe exchange = Inl IndexError"
    using assms(4) by (simp add: select_trigger_def py_index_minus_one py_index_empty)
  with run_EMA_after_scan [where op_data = op_data and req_data = req_data and symbol = symbol
      and exchange = exchange, OF tf data scanned] assms(5) show ?thesis by simp
qed

text \<open>Some long candidate, not at the final bar, and no short candidate: the same.\<close>

lemma run_EMA_no_shorts_exits:
  assumes tf: "timeframe \<in> set operating_timeframes_EMA"
      and data: "op_data timeframe = Some features"
      and scanned: "scan features = Inr (longs, shorts)"
      and "time longs \<noteq> []" and "last (time longs) \<noteq> bar_time (last features)"
      and "time shorts = []"
  shows "run_EMA op_data req_data timeframe symbol exchange = SysExit 0"
proof -
  have "features \<noteq> []"
    using scanned assms(4) by (auto simp: scan_empty no_candidates_def)
  then have "select_trigger features longs shorts symbol timeframe exchange = Inl IndexError"
    using assms(4,5,6) by (simp add: select_trigger_def py_index_minus_one py_index_empty)
  with run_EMA_after_scan [where op_data = op_data and req_data = req_data and symbol = symbol
      and exchange = exchange, OF tf data scanned] assms(4) show ?thesis by simp
qed

text \<open>
  With candidates of both kinds the selection is as the chain reads: the latest short
  trigger at the final bar, and not the latest long one, gives a SHORT signal.
\<close>

lemma run_EMA_short_signal:
  assumes tf: "timeframe \<in> set operating_timeframes_EMA"
      and data: "op_data timeframe = Some features"
      and scanned: "scan features = Inr (longs, shorts)"
      and "time longs \<noteq> []" and "time shorts \<noteq> []"
      and "last (time longs) \<noteq> bar_time (last features)"
      and "last (time shorts) = bar_time (last features)"
  shows "run_EMA op_data req_data timeframe symbol exchange =
           Returned (Some (make_signal symbol (last (time shorts)) ''SHORT'' timeframe exchange
              (last (price shorts)) (last (price shorts) - last (price shorts) * 0.005) features))"
proof -
  have ne: "features \<noteq> []"
    using scanned assms(4) by (auto simp: scan_empty no_candidates_def)
  from scan_lengths [OF scanned] assms(5) have p: "price shorts \<noteq> []" by auto
  have "select_trigger features longs shorts symbol timeframe exchange =
          Inr (Some (make_signal symbol (last (time shorts)) ''SHORT'' timeframe exchange
              (last (price shorts)) (last (price shorts) - last (price shorts) * 0.005) features))"
    using ne p assms(4,5,6,7) by (simp add: select_trigger_def py_index_minus_one)
  with run_EMA_after_scan [where op_data = op_data and req_data = req_data and symbol = symbol
      and exchange = exchange, OF tf data scanned] assms(4) show ?thesis by simp
qed

lemma run_EMA_no_match:
  assumes tf: "timeframe \<in> set operating_timeframes_EMA"
      and data: "op_data timeframe = Some features"
      and scanned: "scan features = Inr (longs, shorts)"
      and "time longs \<noteq> []" and "time shorts \<noteq> []"
      and "last (time longs) \<noteq> bar_time (last features)"
      and "last (time shorts) \<noteq> bar_time (last features)"
  shows "run_EMA op_data req_data timeframe symbol exchange = Returned None"
proof -
  have ne: "features \<noteq> []"
    using scanned assms(4) by (auto simp: scan_empty no_candidates_def)
  have "select_trigger features longs shorts symbol timeframe exchange = Inr None"
    using ne assms(4,5,6,7) by (simp add: select_trigger_def py_index_minus_one)
  with run_EMA_after_scan [where op_data = op_data and req_data = req_data and symbol = symbol
      and exchange = exchange, OF tf data scanned] assms(4) show ?thesis by simp
qed

text \<open>
  Short series. The empty series and a series of two bars with defined indicators give no
  candidate and no signal; a series of one bar makes the first pass read index \<open>- 2\<close>.
\<close>

lemma run_EMA_empty_series:
  assumes "timeframe \<in> set operating_timeframes_EMA" and "op_data timeframe = Some []"
  shows "run_EMA op_data req_data timeframe symbol exchange = Returned None"
  using assms by (simp add: run_EMA_def scan_empty no_candidates_def)

lemma scan_two_bars:
  assumes "bar_fast b0 = Some f0" "bar_slow b0 = Some s0"
      and "bar_fast b1 = Some f1" "bar_slow b1 = Some s1"
  shows "scan [b0, b1] = Inr (no_candidates, no_candidates)"
proof -
  have i0: "py_index [b0, b1] (int 0) = Inr b0" "py_index [b0, b1] (int 0 - 1) = Inr b1"
    "py_index [b0, b1] (int 0 - 2) = Inr b0"
    by (simp_all add: py_index_def)
  have i1: "py_index [b0, b1] (int (Suc 0)) = Inr b1"
    "py_index [b0, b1] (int (Suc 0) - 1) = Inr b0"
    "py_index [b0, b1] (int (Suc 0) - 2) = Inr b1"
    by (simp_all add: py_index_def)
  have s0: "scan_step [b0, b1] ls 0 = Inr ls" for ls
    unfolding scan_step_def i0 using assms by (simp add: py_and_def)
  have s1: "scan_step [b0, b1] ls (Suc 0) = Inr ls" for ls
    unfolding scan_step_def i1 using assms by (simp add: py_and_def)
  have "[0..<length [b0, b1]] = [0, 1]" by (simp add: upt_rec)
  then show ?thesis by (simp add: scan_def s0 s1)
qed

lemma run_EMA_two_bars:
  assumes "timeframe \<in> set operating_timeframes_EMA" and "op_data timeframe = Some [b0, b1]"
      and "bar_fast b0 = Some f0" "bar_slow b0 = Some s0"
      and "bar_fast b1 = Some f1" "bar_slow b1 = Some s1"
  shows "run_EMA op_data req_data timeframe symbol exchange = Returned None"
  using assms(1,2) scan_two_bars [OF assms(3-6)]
  by (simp add: run_EMA_def no_candidates_def)

lemma run_EMA_one_bar:
  assumes "timeframe \<in> set operating_timeframes_EMA" and "op_data timeframe = Some [b]"
  shows "run_EMA op_data req_data timeframe symbol exchange = Raised IndexError"
  using assms by (simp add: run_EMA_def scan_def scan_step_def py_index_def)

text \<open>
  A long cross over the last three bars. Once the scan has completed, the final bar is the
  latest long candidate and the LONG branch of the selection is taken, whatever the short
  candidates are; the take-profit price is \<open>entry + entry * 0.005\<close>, as the source
  computes it. The scan completes when every bar has both indicators defined.
\<close>

lemma run_EMA_long_cross_scanned:
  assumes tf: "timeframe \<in> set operating_timeframes_EMA"
      and data: "op_data timeframe = Some (pre @ [b2, b1, b])"
      and now: "bar_fast b = Some f" "bar_slow b = Some s" "s < f"
      and prev1: "bar_fast b1 = Some f1" "bar_slow b1 = Some s1" "s1 > f1"
      and prev2: "bar_fast b2 = Some f2" "bar_slow b2 = Some s2" "s2 > f2"
      and scanned: "scan (pre @ [b2, b1, b]) = Inr (longs, shorts)"
  shows "run_EMA op_data req_data timeframe symbol exchange =
           Returned (Some (make_signal symbol (bar_time b) ''LONG'' timeframe exchange (bar_open b)
                             (bar_open b + bar_open b * 0.005) (pre @ [b2, b1, b])))"
proof -
  from scan_final_step [OF scanned] obtain ls
    where "scan_step (pre @ [b2, b1, b]) ls (length pre + 2) = Inr (longs, shorts)" ..
  with scan_step_long_cross [OF now prev1 prev2, of pre ls]
  have longs: "longs = record_bar (fst ls) b" by simp
  have t: "py_index (time longs) (- 1) = Inr (bar_time b)"
    and p: "py_index (price longs) (- 1) = Inr (bar_open b)"
    by (simp_all add: longs record_bar_def py_index_last)
  have fin: "py_index (pre @ [b2, b1, b]) (- 1) = Inr b"
    using py_index_last [of "pre @ [b2, b1]" b] by simp
  have sel: "select_trigger (pre @ [b2, b1, b]) longs shorts symbol timeframe exchange =
      Inr (Some (make_signal symbol (bar_time b) ''LONG'' timeframe exchange (bar_open b)
                   (bar_open b + bar_open b * 0.005) (pre @ [b2, b1, b])))"
    by (simp add: select_trigger_def fin t p)
  have nonempty: "length (time longs) > 0" by (simp add: longs record_bar_def)
  show ?thesis
    using tf nonempty by (simp add: run_EMA_def data scanned sel)
qed

lemma run_EMA_long_cross_defined:
  assumes tf: "timeframe \<in> set operating_timeframes_EMA"
      and data: "op_data timeframe = Some (pre @ [b2, b1, b])"
      and defined: "\<forall>x \<in> set pre. bar_fast x \<noteq> None \<and> bar_slow x \<noteq> None"
      and now: "bar_fast b = Some f" "bar_slow b = Some s" "s < f"
      and prev1: "bar_fast b1 = Some f1" "bar_slow b1 = Some s1" "s1 > f1"
      and prev2: "bar_fast b2 = Some f2" "bar_slow b2 = Some s2" "s2 > f2"
  shows "run_EMA op_data req_data timeframe symbol exchange =
           Returned (Some (make_signal symbol (bar_time b) ''LONG'' timeframe exchange (bar_open b)
                             (bar_open b + bar_open b * 0.005) (pre @ [b2, b1, b])))"
proof -
  have "\<forall>x \<in> set (pre @ [b2, b1, b]). bar_fast x \<noteq> None \<and> bar_slow x \<noteq> None"
    using defined now(1,2) prev1(1,2) prev2(1,2) by auto
  moreover have "2 \<le> length (pre @ [b2, b1, b])" by simp
  ultimately obtain longs shorts where "scan (pre @ [b2, b1, b]) = Inr (longs, shorts)"
    using scan_defined by blast
  from run_EMA_long_cross_scanned
         [where op_data = op_data and req_data = req_data and symbol = symbol
            and exchange = exchange, OF tf data now prev1 prev2 this]
  show ?thesis .
qed

section \<open>The claims\<close>

text \<open>
  C10. Whatever it is given, \<^verbatim>\<open>run\<close> of the trend-following model returns \<^verbatim>\<open>None\<close>: it never
  emits a signal event.
\<close>

theorem run_EQ_returns_None:
  "run_EQ op_data req_data timeframe symbol exchange = Returned None"
  by (simp add: run_EQ_def)

text \<open>
  C8. When the timeframe passed to \<^verbatim>\<open>run\<close> of the crossover model is not one of its
  operating timeframes, the call returns \<^verbatim>\<open>None\<close> whatever the bar data is; the data is
  not even looked up.
\<close>

theorem run_EMA_other_timeframe:
  "timeframe \<notin> set operating_timeframes_EMA \<Longrightarrow>
     run_EMA op_data req_data timeframe symbol exchange = Returned None"
  by (simp add: run_EMA_def)

theorem run_EMA_other_timeframe_witness:
  "''5Min'' \<notin> set operating_timeframes_EMA \<and>
   run_EMA Map.empty [] ''5Min'' ''XBTUSD'' ''BitMEX'' = Returned None"
proof -
  have h: "''5Min'' \<notin> set operating_timeframes_EMA"
    by (simp add: operating_timeframes_EMA_def)
  from h run_EMA_other_timeframe [OF h] show ?thesis by simp
qed

text \<open>
  C9. A timeframe code without any digit is not one of the codes of the explicit chain, so
  it reaches the last branch, where \<^verbatim>\<open>int('')\<close> raises ValueError: the loop pass for that
  code fails, the call on that code alone fails with ValueError, and a call on any list
  holding the code fails.
\<close>

theorem no_digit_code_fails:
  assumes "\<forall>c \<in> set tf. \<not> isdigit c"
  shows "required_step tfs to_add tf = Inl ValueError \<and>
         get_required_timeframes_EQ [tf] result = Inl ValueError \<and>
         (tf \<in> set tfs \<longrightarrow> (\<exists>e. get_required_timeframes_EQ tfs result = Inl e))"
proof -
  from assms have nd: "filter isdigit tf = []" by (simp add: filter_empty_conv)
  have a: "required_step tfs to_add tf = Inl ValueError"
    by (rule required_step_no_digit [OF nd])
  have b: "get_required_timeframes_EQ [tf] result = Inl ValueError"
    by (simp add: get_required_timeframes_EQ_def required_step_no_digit [OF nd])
  have c: "\<exists>e. get_required_timeframes_EQ tfs result = Inl e" if "tf \<in> set tfs"
    using required_loop_fails [OF that nd, of tfs "[]"]
    by (auto simp: get_required_timeframes_EQ_def)
  from a b c show ?thesis by blast
qed

theorem no_digit_code_fails_witness:
  "list_all (\<lambda>c. \<not> isdigit c) ''Min'' \<and> ''Min'' \<in> set [''4H'', ''Min''] \<and>
   required_step [''4H'', ''Min''] [''8H''] ''Min'' = Inl ValueError \<and>
   get_required_timeframes_EQ [''Min''] True = Inl ValueError \<and>
   (\<exists>e. get_required_timeframes_EQ [''4H'', ''Min''] True = Inl e)"
proof -
  have h: "\<forall>c \<in> set ''Min''. \<not> isdigit c" by (simp add: isdigit_def)
  have m: "''Min'' \<in> set [''4H'', ''Min'']" by simp
  from h have l: "list_all (\<lambda>c. \<not> isdigit c) ''Min''" by (simp only: list_all_iff)
  from l m no_digit_code_fails [OF h, of "[''4H'', ''Min'']" "[''8H'']" True]
  show ?thesis by blast
qed

text \<open>
  C6. The resolver maps the codes of the explicit chain as the chain reads. In any pass
  of the loop, whatever \<open>timeframes\<close> and \<open>to_add\<close> are, the pass for a code \<open>c\<close> of the
  chain appends the code \<open>d\<close> the chain names for it when \<open>d\<close> is in neither list, and
  leaves \<open>to_add\<close> as it is otherwise; so when a call on a list holding \<open>c\<close> returns,
  \<open>d\<close> is in the list or in the result. Alone in the list, each code of the chain yields
  its mapped code.

  A code made of a digit string \<open>ds\<close> of value \<open>n\<close> followed by letters \<open>ls\<close>, and
  not tested by the chain, yields the decimal numeral of \<open>2 * n\<close> followed by the same
  letters: in any pass of the loop, when it is alone in the list, and in the result of any
  call on a list holding it; that numeral reads back as \<open>2 * n\<close>.

  On a list whose codes all are a non-empty run of digits followed by a non-empty run of
  letters the call returns.
\<close>

theorem resolver_mapping:
  "get_required_timeframes_EQ [''1Min''] True = Inr ([''1Min''], Some [''3Min'']) \<and>
   get_required_timeframes_EQ [''3Min''] True = Inr ([''3Min''], Some [''5Min'']) \<and>
   get_required_timeframes_EQ [''5Min''] True = Inr ([''5Min''], Some [''15Min'']) \<and>
   get_required_timeframes_EQ [''30Min''] True = Inr ([''30Min''], Some [''1H'']) \<and>
   get_required_timeframes_EQ [''12H''] True = Inr ([''12H''], Some [''1D'']) \<and>
   get_required_timeframes_EQ [''16H''] True = Inr ([''16H''], Some [''1D'']) \<and>
   get_required_timeframes_EQ [''3D''] True = Inr ([''3D''], Some [''7D'']) \<and>
   ((c, d) \<in> {(''1Min'', ''3Min''), (''3Min'', ''5Min''), (''5Min'', ''15Min''),
               (''30Min'', ''1H''), (''12H'', ''1D''), (''16H'', ''1D''), (''3D'', ''7D'')} \<longrightarrow>
      required_step tfs to_add c =
        Inr (if d \<notin> set tfs \<and> d \<notin> set to_add then to_add @ [d] else to_add) \<and>
      (c \<in> set T \<and> get_required_timeframes_EQ T True = Inr (T, Some r) \<longrightarrow>
         d \<in> set T \<or> d \<in> set r)) \<and>
   (py_int ds = Inr n \<and> ls \<noteq> [] \<and> list_all isalpha ls \<and>
    ds @ ls \<notin> {''1Min'', ''3Min'', ''5Min'', ''30Min'', ''12H'', ''16H'', ''3D''} \<longrightarrow>
      required_step tfs to_add (ds @ ls) = Inr (to_add @ [py_str (n * 2) @ ls]) \<and>
      get_required_timeframes_EQ [ds @ ls] True = Inr ([ds @ ls], Some [py_str (n * 2) @ ls]) \<and>
      py_int (py_str (n * 2)) = Inr (2 * n) \<and>
      (ds @ ls \<in> set T \<and> get_required_timeframes_EQ T True = Inr (T, Some r) \<longrightarrow>
         py_str (n * 2) @ ls \<in> set r)) \<and>
   ((\<forall>t \<in> set T. takeWhile isdigit t \<noteq> [] \<and> dropWhile isdigit t \<noteq> [] \<and>
                   list_all isalpha (dropWhile isdigit t)) \<longrightarrow>
      (\<exists>r. get_required_timeframes_EQ T True = Inr (T, Some r)))"
proof -
  have table:
    "get_required_timeframes_EQ [''1Min''] True = Inr ([''1Min''], Some [''3Min''])"
    "get_required_timeframes_EQ [''3Min''] True = Inr ([''3Min''], Some [''5Min''])"
    "get_required_timeframes_EQ [''5Min''] True = Inr ([''5Min''], Some [''15Min''])"
    "get_required_timeframes_EQ [''30Min''] True = Inr ([''30Min''], Some [''1H''])"
    "get_required_timeframes_EQ [''12H''] True = Inr ([''12H''], Some [''1D''])"
    "get_required_timeframes_EQ [''16H''] True = Inr ([''16H''], Some [''1D''])"
    "get_required_timeframes_EQ [''3D''] True = Inr ([''3D''], Some [''7D''])"
    by (simp_all add: get_required_timeframes_EQ_def required_step_def add_absent_def)
  have loop: "required_loop T [] T = Inr r"
    if "get_required_timeframes_EQ T True = Inr (T, Some r)" for r
    using that by (auto simp: get_required_timeframes_EQ_def split: sum.splits)
  have chain:
    "required_step tfs to_add c =
       Inr (if d \<notin> set tfs \<and> d \<notin> set to_add then to_add @ [d] else to_add) \<and>
     (c \<in> set T \<and> get_required_timeframes_EQ T True = Inr (T, Some r) \<longrightarrow>
        d \<in> set T \<or> d \<in> set r)"
    if pair: "(c, d) \<in> {(''1Min'', ''3Min''), (''3Min'', ''5Min''), (''5Min'', ''15Min''),
               (''30Min'', ''1H''), (''12H'', ''1D''), (''16H'', ''1D''), (''3D'', ''7D'')}"
  proof -
    have step: "required_step tfs' acc c =
        Inr (if d \<notin> set tfs' \<and> d \<notin> set acc then acc @ [d] else acc)" for tfs' acc
      using pair by (rule required_step_table)
    have "d \<in> set T \<or> d \<in> set r"
      if "c \<in> set T" and "get_required_timeframes_EQ T True = Inr (T, Some r)"
    proof (cases "d \<in> set T")
      case True
      then show ?thesis ..
    next
      case False
      have "d \<in> set r"
      proof (rule required_loop_member [OF loop [OF that(2)] that(1)])
        fix acc acc'
        assume "required_step T acc c = Inr acc'"
        with False show "d \<in> set acc'" by (auto simp: step split: if_splits)
      qed
      then show ?thesis ..
    qed
    with step show ?thesis by blast
  qed
  have generic:
    "required_step tfs to_add (ds @ ls) = Inr (to_add @ [py_str (n * 2) @ ls]) \<and>
     get_required_timeframes_EQ [ds @ ls] True = Inr ([ds @ ls], Some [py_str (n * 2) @ ls]) \<and>
     py_int (py_str (n * 2)) = Inr (2 * n) \<and>
     (ds @ ls \<in> set T \<and> get_required_timeframes_EQ T True = Inr (T, Some r) \<longrightarrow>
        py_str (n * 2) @ ls \<in> set r)"
    if num: "py_int ds = Inr n" and ne: "ls \<noteq> []" and letters: "list_all isalpha ls"
      and other: "ds @ ls \<notin> {''1Min'', ''3Min'', ''5Min'', ''30Min'', ''12H'', ''16H'', ''3D''}"
  proof -
    from other have other': "ds @ ls \<notin> set explicit_codes"
      by (simp add: explicit_codes_def)
    have d: "doubled (ds @ ls) = Inr (py_str (n * 2) @ ls)"
      using num ne letters by (rule doubled_code)
    have step: "required_step tfs' acc (ds @ ls) = Inr (acc @ [py_str (n * 2) @ ls])" for tfs' acc
      by (simp add: required_step_fallback [OF other'] d)
    have whole: "get_required_timeframes_EQ [ds @ ls] True = Inr ([ds @ ls], Some [py_str (n * 2) @ ls])"
      by (simp add: get_required_timeframes_EQ_def step)
    have reread: "py_int (py_str (n * 2)) = Inr (2 * n)"
      by (simp add: py_int_py_str mult.commute)
    have inlist: "py_str (n * 2) @ ls \<in> set r"
      if "ds @ ls \<in> set T" and "get_required_timeframes_EQ T True = Inr (T, Some r)"
    proof (rule required_loop_member [OF loop [OF that(2)] that(1)])
      fix acc acc'
      assume "required_step T acc (ds @ ls) = Inr acc'"
      then show "py_str (n * 2) @ ls \<in> set acc'" by (auto simp: step)
    qed
    from step whole reread inlist show ?thesis by simp
  qed
  have total: "\<exists>r. get_required_timeframes_EQ T True = Inr (T, Some r)"
    if "\<forall>t \<in> set T. takeWhile isdigit t \<noteq> [] \<and> dropWhile isdigit t \<noteq> [] \<and>
                   list_all isalpha (dropWhile isdigit t)"
    using required_loop_returns [OF that, of T "[]"]
    by (auto simp: get_required_timeframes_EQ_def)
  from table chain generic total show ?thesis by blast
qed

theorem resolver_mapping_witness:
  "(''12H'', ''1D'') \<in> {(''1Min'', ''3Min''), (''3Min'', ''5Min''), (''5Min'', ''15Min''),
               (''30Min'', ''1H''), (''12H'', ''1D''), (''16H'', ''1D''), (''3D'', ''7D'')} \<and>
   required_step [''1Min'', ''4H'', ''3Min'', ''12H'', ''16H''] [''8H'', ''5Min''] ''12H'' =
     Inr [''8H'', ''5Min'', ''1D''] \<and>
   ''12H'' \<in> set [''1Min'', ''4H'', ''3Min'', ''12H'', ''16H''] \<and>
   get_required_timeframes_EQ [''1Min'', ''4H'', ''3Min'', ''12H'', ''16H''] True =
     Inr ([''1Min'', ''4H'', ''3Min'', ''12H'', ''16H''], Some [''8H'', ''5Min'', ''1D'']) \<and>
   ''1D'' \<in> set [''8H'', ''5Min'', ''1D''] \<and>
   py_int ''4'' = Inr 4 \<and> ''H'' \<noteq> [] \<and> list_all isalpha ''H'' \<and>
   ''4H'' \<notin> {''1Min'', ''3Min'', ''5Min'', ''30Min'', ''12H'', ''16H'', ''3D''} \<and>
   required_step [''1Min'', ''4H'', ''3Min'', ''12H'', ''16H''] [] ''4H'' = Inr [''8H''] \<and>
   get_required_timeframes_EQ [''4H''] True = Inr ([''4H''], Some [''8H'']) \<and>
   py_int ''8'' = Inr 8 \<and>
   ''4H'' \<in> set [''1Min'', ''4H'', ''3Min'', ''12H'', ''16H''] \<and>
   ''8H'' \<in> set [''8H'', ''5Min'', ''1D''] \<and>
   list_all (\<lambda>t. takeWhile isdigit t \<noteq> [] \<and> dropWhile isdigit t \<noteq> [] \<and>
                  list_all isalpha (dropWhile isdigit t))
     [''1Min'', ''4H'', ''3Min'', ''12H'', ''16H''] \<and>
   (\<exists>r. get_required_timeframes_EQ [''1Min'', ''4H'', ''3Min'', ''12H'', ''16H''] True =
          Inr ([''1Min'', ''4H'', ''3Min'', ''12H'', ''16H''], Some r))"
proof -
  let ?T = "[''1Min'', ''4H'', ''3Min'', ''12H'', ''16H'']"
  have pair: "(''12H'', ''1D'') \<in> {(''1Min'', ''3Min''), (''3Min'', ''5Min''), (''5Min'', ''15Min''),
               (''30Min'', ''1H''), (''12H'', ''1D''), (''16H'', ''1D''), (''3D'', ''7D'')}"
    by simp
  have code: "py_int ''4'' = Inr 4 \<and> ''H'' \<noteq> [] \<and> list_all isalpha ''H'' \<and>
           ''4'' @ ''H'' \<notin> {''1Min'', ''3Min'', ''5Min'', ''30Min'', ''12H'', ''16H'', ''3D''}"
    by (simp add: py_int_def isdigit_def digit_value_def isalpha_def)
  have formed: "\<forall>t \<in> set ?T. takeWhile isdigit t \<noteq> [] \<and> dropWhile isdigit t \<noteq> [] \<and>
                   list_all isalpha (dropWhile isdigit t)"
    by (simp add: isdigit_def isalpha_def)
  then have formed': "list_all (\<lambda>t. takeWhile isdigit t \<noteq> [] \<and> dropWhile isdigit t \<noteq> [] \<and>
                  list_all isalpha (dropWhile isdigit t)) ?T"
    by (simp only: list_all_iff)
  have whole: "get_required_timeframes_EQ ?T True = Inr (?T, Some [''8H'', ''5Min'', ''1D''])"
    by code_simp
  have members: "''12H'' \<in> set ?T" "''4H'' \<in> set ?T" by simp_all
  have s: "py_str 8 = ''8''"
    by code_simp
  note inst1 = resolver_mapping [where c = "''12H''" and d = "''1D''" and tfs = ?T
      and to_add = "[''8H'', ''5Min'']" and T = ?T and r = "[''8H'', ''5Min'', ''1D'']"
      and ds = "''4''" and n = 4 and ls = "''H''"]
  note inst2 = resolver_mapping [where c = "''12H''" and d = "''1D''" and tfs = ?T
      and to_add = "[]" and T = ?T and r = "[''8H'', ''5Min'', ''1D'']"
      and ds = "''4''" and n = 4 and ls = "''H''"]
  note rest1 = conjunct2 [OF conjunct2 [OF conjunct2 [OF conjunct2 [OF conjunct2 [OF conjunct2
      [OF conjunct2 [OF inst1]]]]]]]
  note rest2 = conjunct2 [OF conjunct2 [OF conjunct2 [OF conjunct2 [OF conjunct2 [OF conjunct2
      [OF conjunct2 [OF inst2]]]]]]]
  note chain0 = mp [OF conjunct1 [OF rest1] pair]
  have chain: "required_step ?T [''8H'', ''5Min''] ''12H'' =
        Inr (if ''1D'' \<notin> set ?T \<and> ''1D'' \<notin> set [''8H'', ''5Min'']
             then [''8H'', ''5Min''] @ [''1D''] else [''8H'', ''5Min''])"
    by (rule conjunct1 [OF chain0])
  have chain_in: "''1D'' \<in> set ?T \<or> ''1D'' \<in> set [''8H'', ''5Min'', ''1D'']"
    by (rule mp [OF conjunct2 [OF chain0] conjI [OF members(1) whole]])
  note generic0 = mp [OF conjunct1 [OF conjunct2 [OF rest2]] code]
  have generic: "required_step ?T [] (''4'' @ ''H'') = Inr ([] @ [py_str (4 * 2) @ ''H''])"
    "get_required_timeframes_EQ [''4'' @ ''H''] True =
          Inr ([''4'' @ ''H''], Some [py_str (4 * 2) @ ''H''])"
    "py_int (py_str (4 * 2)) = Inr (2 * 4)"
    using generic0 by simp_all
  have generic_in: "py_str (4 * 2) @ ''H'' \<in> set [''8H'', ''5Min'', ''1D'']"
    using generic0 members(2) whole by simp
  have total: "\<exists>r. get_required_timeframes_EQ ?T True = Inr (?T, Some r)"
    by (rule mp [OF conjunct2 [OF conjunct2 [OF rest2]] formed])
  have a: "required_step ?T [''8H'', ''5Min''] ''12H'' = Inr [''8H'', ''5Min'', ''1D'']"
    using chain by simp
  have b: "required_step ?T [] ''4H'' = Inr [''8H'']"
    "get_required_timeframes_EQ [''4H''] True = Inr ([''4H''], Some [''8H''])"
    "py_int ''8'' = Inr 8"
    using generic by (simp_all add: s)
  have c: "''4H'' \<notin> {''1Min'', ''3Min'', ''5Min'', ''30Min'', ''12H'', ''16H'', ''3D''}"
    "py_int ''4'' = Inr 4" "''H'' \<noteq> []" "list_all isalpha ''H''"
    using code by simp_all
  have d: "''1D'' \<in> set [''8H'', ''5Min'', ''1D'']" "''8H'' \<in> set [''8H'', ''5Min'', ''1D'']"
    by simp_all
  show ?thesis
    by (intro conjI pair a members whole d c b formed' total)
qed

text \<open>
  C2 (amended). For a list \<open>T\<close> made of codes of the explicit chain only,
  \<^verbatim>\<open>EQTrendFollowing.get_required_timeframes(T, result=True)\<close> leaves \<open>T\<close> as it is and
  returns a list without duplicates that shares no element with \<open>T\<close>.
  \<^verbatim>\<open>EMACrossTestingOnly.get_required_timeframes(T, result=True)\<close> returns \<open>T\<close> itself.
\<close>

theorem required_timeframes_explicit_codes:
  "(set T \<subseteq> set explicit_codes \<longrightarrow>
      (\<exists>r. get_required_timeframes_EQ T True = Inr (T, Some r) \<and>
           distinct r \<and> set r \<inter> set T = {})) \<and>
   get_required_timeframes_EMA T True = Inr (T, Some T)"
proof -
  have "\<exists>r. get_required_timeframes_EQ T True = Inr (T, Some r) \<and> distinct r \<and> set r \<inter> set T = {}"
    if "set T \<subseteq> set explicit_codes"
  proof -
    from required_loop_explicit [OF that, of "[]" T]
    obtain r where "required_loop T [] T = Inr r" and "distinct r" and "set r \<inter> set T = {}"
      by auto
    then show ?thesis by (simp add: get_required_timeframes_EQ_def)
  qed
  then show ?thesis by (simp add: get_required_timeframes_EMA_def)
qed

theorem required_timeframes_explicit_codes_witness:
  "set [''1Min'', ''3Min'', ''12H'', ''16H''] \<subseteq> set explicit_codes \<and>
   (\<exists>r. get_required_timeframes_EQ [''1Min'', ''3Min'', ''12H'', ''16H''] True =
          Inr ([''1Min'', ''3Min'', ''12H'', ''16H''], Some r) \<and>
        distinct r \<and> set r \<inter> set [''1Min'', ''3Min'', ''12H'', ''16H''] = {}) \<and>
   get_required_timeframes_EQ [''1Min'', ''3Min'', ''12H'', ''16H''] True =
     Inr ([''1Min'', ''3Min'', ''12H'', ''16H''], Some [''5Min'', ''1D'']) \<and>
   get_required_timeframes_EMA [''1Min'', ''3Min'', ''12H'', ''16H''] True =
     Inr ([''1Min'', ''3Min'', ''12H'', ''16H''], Some [''1Min'', ''3Min'', ''12H'', ''16H''])"
proof -
  have h: "set [''1Min'', ''3Min'', ''12H'', ''16H''] \<subseteq> set explicit_codes"
    by (simp add: explicit_codes_def)
  have v: "get_required_timeframes_EQ [''1Min'', ''3Min'', ''12H'', ''16H''] True =
     Inr ([''1Min'', ''3Min'', ''12H'', ''16H''], Some [''5Min'', ''1D''])"
    by code_simp
  from h v required_timeframes_explicit_codes [of "[''1Min'', ''3Min'', ''12H'', ''16H'']"]
  show ?thesis by blast
qed

text \<open>
  C2 as stated does not hold: on \<^verbatim>\<open>["1Min"]\<close> the crossover model's
  \<^verbatim>\<open>get_required_timeframes(T, result=True)\<close> returns \<open>T\<close>, which shares \<^verbatim>\<open>"1Min"\<close> with \<open>T\<close>.
\<close>

theorem get_required_timeframes_EMA_returns_input:
  "get_required_timeframes_EMA [''1Min''] True = Inr ([''1Min''], Some [''1Min''])"
  by (simp add: get_required_timeframes_EMA_def)

text \<open>
  C7. On \<^verbatim>\<open>["1H", "2H"]\<close> with \<^verbatim>\<open>result=False\<close> the call returns \<^verbatim>\<open>None\<close> and leaves the
  list as \<^verbatim>\<open>["1H", "2H", "2H", "4H"]\<close>: the last branch appends the doubled code of
  \<^verbatim>\<open>"1H"\<close> although \<^verbatim>\<open>"2H"\<close> is in the list already.
\<close>

theorem get_required_timeframes_EQ_appends_present_code:
  "get_required_timeframes_EQ [''1H'', ''2H''] False = Inr ([''1H'', ''2H'', ''2H'', ''4H''], None)"
  by code_simp

text \<open>
  C3. On a series of one bar, with both indicators defined, the first pass of the scan
  reads \<^verbatim>\<open>features[0 - 2]\<close>, which is out of range: IndexError leaves \<^verbatim>\<open>run\<close>, outside
  its \<^verbatim>\<open>try\<close> block.
\<close>

theorem run_EMA_single_bar_raises:
  "scan [(0, 10, Some 1, Some 2)] = Inl IndexError \<and>
   run_EMA [''1Min'' \<mapsto> [(0, 10, Some 1, Some 2)]] [] ''1Min'' ''XBTUSD'' ''BitMEX'' =
     Raised IndexError"
  by code_simp

text \<open>
  C4. The series has a short cross at its final bar and no long cross: the scan records
  one short candidate, at the final bar's timestamp, and no long candidate. \<^verbatim>\<open>run\<close>
  evaluates \<^verbatim>\<open>longs['time'][-1]\<close> on the empty list first, the handler catches the
  IndexError, and the call ends in \<^verbatim>\<open>sys.exit(0)\<close>; no SHORT signal is returned.
\<close>

theorem run_EMA_short_cross_exits:
  "scan [(0, 10, Some 2, Some 1), (60, 11, Some 2, Some 1), (120, 12, Some 1, Some 2)] =
     Inr (no_candidates, \<lparr>price = [12], time = [120]\<rparr>) \<and>
   run_EMA [''1Min'' \<mapsto> [(0, 10, Some 2, Some 1), (60, 11, Some 2, Some 1),
                             (120, 12, Some 1, Some 2)]]
           [] ''1Min'' ''XBTUSD'' ''BitMEX'' = SysExit 0"
  by code_simp

text \<open>
  C5. The first bar of the series has no indicator value (\<^verbatim>\<open>None\<close>, as in a warm-up
  period); the last three bars form a long cross at the final bar, and no bar is a short
  trigger. At index 1 the scan compares the indicators of bar 0, which it has not tested:
  TypeError leaves \<^verbatim>\<open>run\<close>, and no LONG signal is returned.
\<close>

theorem run_EMA_warmup_bar_raises:
  "scan [(0, 10, None, None), (60, 11, Some 1, Some 2), (120, 12, Some 1, Some 2),
         (180, 100, Some 2, Some 1)] = Inl TypeError \<and>
   run_EMA [''1Min'' \<mapsto> [(0, 10, None, None), (60, 11, Some 1, Some 2),
                             (120, 12, Some 1, Some 2), (180, 100, Some 2, Some 1)]]
           [] ''1Min'' ''XBTUSD'' ''BitMEX'' = Raised TypeError"
  by code_simp

text \<open>
  C1. The series has one long cross, at its third bar, and no short cross; the final bar
  is not a trigger. The long candidates are not empty and the short candidates are, so
  \<^verbatim>\<open>run\<close> evaluates \<^verbatim>\<open>shorts['time'][-1]\<close> on the empty list, the handler catches the
  IndexError, and the call ends in \<^verbatim>\<open>sys.exit(0)\<close> instead of returning \<^verbatim>\<open>None\<close>.
\<close>

theorem run_EMA_historic_long_exits:
  "scan [(0, 10, Some 1, Some 2), (60, 11, Some 1, Some 2), (120, 12, Some 2, Some 1),
         (180, 13, Some 2, Some 2)] =
     Inr (\<lparr>price = [12], time = [120]\<rparr>, no_candidates) \<and>
   run_EMA [''1Min'' \<mapsto> [(0, 10, Some 1, Some 2), (60, 11, Some 1, Some 2),
                             (120, 12, Some 2, Some 1), (180, 13, Some 2, Some 2)]]
           [] ''1Min'' ''XBTUSD'' ''BitMEX'' = SysExit 0"
  by code_simp

end
